theory Spec2Isabelle
  imports Complex_Main "HOL-Library.List_Lexorder" "HOL-Library.Char_ord"
begin

section \<open>Tabular frames\<close>

text \<open>
  The notebook works on pandas DataFrames. A frame has a row index and an ordered list of
  named columns; pandas keeps every column as long as the index. Column labels may repeat
  in pandas, so the columns are an association list, not a map. The Tabular Frame of the
  data model is an ordered set of named columns: where a property needs the labels to be
  pairwise different, it assumes \<open>distinct (columns df)\<close>.
\<close>

datatype cell = CInt int | CFloat real | CStr string | CBool bool | CNaN

datatype error = KeyError "string list" | ValueError

record frame =
  index :: "nat list"
  cols :: "(string \<times> cell list) list"

definition columns :: "frame \<Rightarrow> string list" where
  "columns df = map fst (cols df)"

definition nrows :: "frame \<Rightarrow> nat" where
  "nrows df = length (index df)"

text \<open>\<open>column df c\<close> is the content of the first column labelled \<open>c\<close>, if there is one.\<close>

definition column :: "frame \<Rightarrow> string \<Rightarrow> cell list option" where
  "column df c = map_of (cols df) c"

subsection \<open>The pandas operations the notebook calls\<close>

text \<open>
  \<^verbatim>\<open>df[col] = v\<close> with a scalar \<open>v\<close>: every column labelled \<open>col\<close> is overwritten
  with \<open>v\<close> in each row; when there is none, a new column is appended after the last one.
\<close>

definition df_setitem :: "frame \<Rightarrow> string \<Rightarrow> cell \<Rightarrow> frame" where
  "df_setitem df col v =
     (let filled = replicate (nrows df) v in
      if col \<in> set (columns df)
      then df\<lparr>cols := map (\<lambda>c. if fst c = col then (fst c, filled) else c) (cols df)\<rparr>
      else df\<lparr>cols := cols df @ [(col, filled)]\<rparr>)"

text \<open>
  \<^verbatim>\<open>df[key]\<close> with a list of labels: a new frame on the same index whose columns are, for
  each label of the key in turn, the columns of \<open>df\<close> carrying that label. A label that
  \<open>df\<close> does not have raises KeyError.
\<close>

definition df_getitem :: "frame \<Rightarrow> string list \<Rightarrow> error + frame" where
  "df_getitem df key =
     (case filter (\<lambda>k. k \<notin> set (columns df)) key of
        [] \<Rightarrow> Inr (df\<lparr>cols := concat (map (\<lambda>k. filter (\<lambda>c. fst c = k) (cols df)) key)\<rparr>)
      | k # ks \<Rightarrow> Inl (KeyError (k # ks)))"

text \<open>
  \<^verbatim>\<open>df.drop(label, axis=1)\<close>: a new frame without the columns labelled \<open>label\<close>;
  KeyError when there is none.
\<close>

definition df_drop :: "frame \<Rightarrow> string \<Rightarrow> error + frame" where
  "df_drop df label =
     (if label \<in> set (columns df)
      then Inr (df\<lparr>cols := filter (\<lambda>c. fst c \<noteq> label) (cols df)\<rparr>)
      else Inl (KeyError [label]))"

text \<open>
  \<^verbatim>\<open>df[label]\<close> with one label: the column as a Series on the frame's index, a frame of
  the matching columns when the label repeats, KeyError when it is missing.
\<close>

datatype selection = Series "nat list" "cell list" | DataFrame frame

definition df_getitem_label :: "frame \<Rightarrow> string \<Rightarrow> error + selection" where
  "df_getitem_label df label =
     (case filter (\<lambda>c. fst c = label) (cols df) of
        [] \<Rightarrow> Inl (KeyError [label])
      | [c] \<Rightarrow> Inr (Series (index df) (snd c))
      | c # d # cs \<Rightarrow> Inr (DataFrame (df\<lparr>cols := c # d # cs\<rparr>)))"

section \<open>The notebook's cells\<close>

subsection \<open>Features of the training frame\<close>

text \<open>\<^verbatim>\<open>X = df_encoded.drop('Churn', axis=1)\<close>\<close>

definition training_features :: "frame \<Rightarrow> error + frame" where
  "training_features df_encoded = df_drop df_encoded ''Churn''"

subsection \<open>Aligning the test frame\<close>

text \<open>\<^verbatim>\<open>missing_cols = set(X.columns) - set(testingDF.columns)\<close>\<close>

definition missing_cols :: "string list \<Rightarrow> frame \<Rightarrow> string set" where
  "missing_cols X_columns testingDF = set X_columns - set (columns testingDF)"

text \<open>
  A Python set is iterated in an order the language does not fix. \<open>iterates seq S\<close> says
  that \<open>seq\<close> is one such iteration of \<open>S\<close>: every element once, in some order.
\<close>

definition iterates :: "'a list \<Rightarrow> 'a set \<Rightarrow> bool" where
  "iterates seq S \<longleftrightarrow> distinct seq \<and> set seq = S"

text \<open>
  \<^verbatim>\<open>for col in missing_cols: testingDF[col] = 0\<close>, the loop running through \<open>seq\<close>.
\<close>

fun fill_missing :: "string list \<Rightarrow> frame \<Rightarrow> frame" where
  "fill_missing [] testingDF = testingDF"
| "fill_missing (col # seq) testingDF = fill_missing seq (df_setitem testingDF col (CInt 0))"

text \<open>
  The loop followed by \<^verbatim>\<open>testingDF = testingDF[X.columns]\<close>. The iteration \<open>seq\<close> of
  \<open>missing_cols\<close> is what the run time chooses.
\<close>

definition align :: "string list \<Rightarrow> string list \<Rightarrow> frame \<Rightarrow> error + frame" where
  "align seq X_columns testingDF = df_getitem (fill_missing seq testingDF) X_columns"

text \<open>
  The rest of the cell:
  \<^verbatim>\<open>X_test = testingDF.drop('Churn', axis=1)\<close> and \<^verbatim>\<open>y_test = testingDF['Churn']\<close>.
\<close>

definition prepare_test ::
  "string list \<Rightarrow> string list \<Rightarrow> frame \<Rightarrow> error + (frame \<times> frame \<times> selection)" where
  "prepare_test seq X_columns testingDF =
     (case align seq X_columns testingDF of
        Inl e \<Rightarrow> Inl e
      | Inr aligned \<Rightarrow>
          (case df_drop aligned ''Churn'' of
             Inl e \<Rightarrow> Inl e
           | Inr X_test \<Rightarrow>
               (case df_getitem_label aligned ''Churn'' of
                  Inl e \<Rightarrow> Inl e
                | Inr y_test \<Rightarrow> Inr (aligned, X_test, y_test))))"

text \<open>
  The same cell on the notebook's objects. Variables hold references into a heap of
  frames: \<^verbatim>\<open>testingDF[col] = 0\<close> writes into the object \<open>testingDF\<close> refers to,
  \<^verbatim>\<open>testingDF[X.columns]\<close> makes a new object and the assignment rebinds the variable.
\<close>

record state =
  heap :: "frame list"
  var_X :: nat
  var_testingDF :: nat

fun fill_missing_at :: "string list \<Rightarrow> nat \<Rightarrow> frame list \<Rightarrow> frame list" where
  "fill_missing_at [] a h = h"
| "fill_missing_at (col # seq) a h =
     fill_missing_at seq a (h[a := df_setitem (h ! a) col (CInt 0)])"

definition align_cell :: "string list \<Rightarrow> state \<Rightarrow> error + state" where
  "align_cell seq s =
     (let h = fill_missing_at seq (var_testingDF s) (heap s) in
      case df_getitem (h ! var_testingDF s) (columns (h ! var_X s)) of
        Inl e \<Rightarrow> Inl e
      | Inr selected \<Rightarrow> Inr (s\<lparr>heap := h @ [selected], var_testingDF := length h\<rparr>))"

subsection \<open>Fitted models\<close>

text \<open>
  A regressor's prediction is a floating-point score; comparisons with a Not-a-Number are
  false.
\<close>

datatype score = Finite real | PosInf | NegInf | NaN

text \<open>
  What the notebook reads from a fitted model: its per-feature attribution
  (\<^verbatim>\<open>coef_[0]\<close> of the logistic model, \<^verbatim>\<open>coef_\<close> of Ridge and Lasso,
  \<^verbatim>\<open>feature_importances_\<close> of the tree models) and its \<^verbatim>\<open>predict\<close>.
\<close>

record classifier =
  clf_attribution :: "real list"
  clf_predict :: "frame \<Rightarrow> int list"

record regressor =
  reg_coef :: "real list"
  reg_predict :: "frame \<Rightarrow> score list"

record models =
  logreg :: classifier
  ridge_best :: regressor
  lasso_best :: regressor
  dtree :: classifier
  rf :: classifier
  gbc :: classifier

subsection \<open>Scoring\<close>

text \<open>\<^verbatim>\<open>(scores >= 0.5).astype(int)\<close>\<close>

fun score_ge :: "score \<Rightarrow> real \<Rightarrow> bool" where
  "score_ge (Finite r) x \<longleftrightarrow> r \<ge> x"
| "score_ge PosInf x \<longleftrightarrow> True"
| "score_ge NegInf x \<longleftrightarrow> False"
| "score_ge NaN x \<longleftrightarrow> False"

fun score_lt :: "score \<Rightarrow> real \<Rightarrow> bool" where
  "score_lt (Finite r) x \<longleftrightarrow> r < x"
| "score_lt PosInf x \<longleftrightarrow> False"
| "score_lt NegInf x \<longleftrightarrow> True"
| "score_lt NaN x \<longleftrightarrow> False"

definition bool_astype_int :: "bool list \<Rightarrow> int list" where
  "bool_astype_int bs = map (\<lambda>b. if b then 1 else 0) bs"

definition threshold :: "score list \<Rightarrow> int list" where
  "threshold scores = bool_astype_int (map (\<lambda>s. score_ge s (1/2)) scores)"

text \<open>
  Modelled from the spec: \<^verbatim>\<open>classification_report\<close> is scikit-learn's and not part of
  the sources. Per class, precision is true positives over true positives plus false
  positives, recall is true positives over true positives plus false negatives, F1 is
  their harmonic mean and support is the number of true instances; a ratio with a zero
  denominator is reported as zero. The overall accuracy is the share of rows predicted
  right. The spec does not say which classes are listed, so the report gives a row for
  any class asked for; it does not say what the accuracy of an empty vector is, which is
  \<open>None\<close> here. Numbers are exact reals, not rounded floats.
\<close>

definition true_positives :: "int \<Rightarrow> int list \<Rightarrow> int list \<Rightarrow> nat" where
  "true_positives c y_true y_pred =
     length (filter (\<lambda>(t, p). t = c \<and> p = c) (zip y_true y_pred))"

definition false_positives :: "int \<Rightarrow> int list \<Rightarrow> int list \<Rightarrow> nat" where
  "false_positives c y_true y_pred =
     length (filter (\<lambda>(t, p). t \<noteq> c \<and> p = c) (zip y_true y_pred))"

definition false_negatives :: "int \<Rightarrow> int list \<Rightarrow> int list \<Rightarrow> nat" where
  "false_negatives c y_true y_pred =
     length (filter (\<lambda>(t, p). t = c \<and> p \<noteq> c) (zip y_true y_pred))"

definition ratio :: "nat \<Rightarrow> nat \<Rightarrow> real" where
  "ratio n d = (if d = 0 then 0 else real n / real d)"

definition precision :: "int \<Rightarrow> int list \<Rightarrow> int list \<Rightarrow> real" where
  "precision c y_true y_pred =
     ratio (true_positives c y_true y_pred)
           (true_positives c y_true y_pred + false_positives c y_true y_pred)"

definition recall :: "int \<Rightarrow> int list \<Rightarrow> int list \<Rightarrow> real" where
  "recall c y_true y_pred =
     ratio (true_positives c y_true y_pred)
           (true_positives c y_true y_pred + false_negatives c y_true y_pred)"

definition f1_score :: "int \<Rightarrow> int list \<Rightarrow> int list \<Rightarrow> real" where
  "f1_score c y_true y_pred =
     (let p = precision c y_true y_pred; r = recall c y_true y_pred
      in if p + r = 0 then 0 else 2 * p * r / (p + r))"

definition support :: "int \<Rightarrow> int list \<Rightarrow> nat" where
  "support c y_true = length (filter (\<lambda>t. t = c) y_true)"

definition accuracy :: "int list \<Rightarrow> int list \<Rightarrow> real option" where
  "accuracy y_true y_pred =
     (if y_true = [] then None
      else Some (real (length (filter (\<lambda>(t, p). t = p) (zip y_true y_pred)))
                 / real (length y_true)))"

text \<open>
  Modelled from the spec: the report itself, one row per class and the overall accuracy.
\<close>

record report_row =
  row_precision :: real
  row_recall :: real
  row_f1 :: real
  row_support :: nat

record report =
  per_class :: "int \<Rightarrow> report_row"
  overall_accuracy :: "real option"

definition classification_report :: "int list \<Rightarrow> int list \<Rightarrow> report" where
  "classification_report y_true y_pred =
     \<lparr>per_class = (\<lambda>c. \<lparr>row_precision = precision c y_true y_pred,
                          row_recall = recall c y_true y_pred,
                          row_f1 = f1_score c y_true y_pred,
                          row_support = support c y_true\<rparr>),
      overall_accuracy = accuracy y_true y_pred\<rparr>"

text \<open>
  The evaluation cell scores the six models in a fixed order; the two regressors'
  scores are thresholded first.
\<close>

definition predictions :: "models \<Rightarrow> frame \<Rightarrow> int list list" where
  "predictions m X_test =
     [clf_predict (logreg m) X_test,
      threshold (reg_predict (ridge_best m) X_test),
      threshold (reg_predict (lasso_best m) X_test),
      clf_predict (dtree m) X_test,
      clf_predict (rf m) X_test,
      clf_predict (gbc m) X_test]"

definition evaluate :: "models \<Rightarrow> frame \<Rightarrow> int list \<Rightarrow> (string \<times> report) list" where
  "evaluate m X_test y_test =
     zip [''Logistic Regression'', ''Ridge Regression'', ''Lasso Regression'',
          ''Decision Tree'', ''Random Forest'', ''Gradient Boosting'']
         (map (classification_report y_test) (predictions m X_test))"

subsection \<open>The importance table\<close>

text \<open>
  \<^verbatim>\<open>pd.Series(values, index=labels)\<close> raises ValueError unless there is one value per
  label.
\<close>

record series =
  s_index :: "string list"
  s_values :: "real list"

definition pd_Series :: "real list \<Rightarrow> string list \<Rightarrow> error + series" where
  "pd_Series vals idx =
     (if length vals = length idx then Inr \<lparr>s_index = idx, s_values = vals\<rparr>
      else Inl ValueError)"

text \<open>
  \<^verbatim>\<open>pd.DataFrame(d)\<close> on a dict of Series: one column per key, in the order of the
  keys. The row labels are the common index when all Series have the same one, their
  sorted union otherwise. Each Series is taken as it is when its index is the row index;
  otherwise it is re-indexed, which raises ValueError on repeated labels and leaves a
  missing cell (\<open>None\<close>) where the Series has no value for a row label.
\<close>

record table =
  t_index :: "string list"
  t_cols :: "(string \<times> real option list) list"

definition union_indexes :: "string list list \<Rightarrow> string list" where
  "union_indexes idxs =
     (case idxs of
        [] \<Rightarrow> []
      | i # rest \<Rightarrow> if list_all (\<lambda>j. j = i) rest then i else sort (remdups (concat idxs)))"

definition reindex :: "series \<Rightarrow> string list \<Rightarrow> error + real option list" where
  "reindex s idx =
     (if s_index s = idx then Inr (map Some (s_values s))
      else if \<not> distinct (s_index s) then Inl ValueError
      else Inr (map (map_of (zip (s_index s) (s_values s))) idx))"

fun reindex_all ::
  "(string \<times> series) list \<Rightarrow> string list \<Rightarrow> error + (string \<times> real option list) list" where
  "reindex_all [] idx = Inr []"
| "reindex_all ((name, s) # rest) idx =
     (case reindex s idx of
        Inl e \<Rightarrow> Inl e
      | Inr col \<Rightarrow>
          (case reindex_all rest idx of
             Inl e \<Rightarrow> Inl e
           | Inr cs \<Rightarrow> Inr ((name, col) # cs)))"

definition pd_DataFrame :: "(string \<times> series) list \<Rightarrow> error + table" where
  "pd_DataFrame d =
     (let idx = union_indexes (map (\<lambda>e. s_index (snd e)) d) in
      case reindex_all d idx of
        Inl e \<Rightarrow> Inl e
      | Inr cs \<Rightarrow> Inr \<lparr>t_index = idx, t_cols = cs\<rparr>)"

text \<open>Running the next step on a result, passing an exception on.\<close>

definition bind_result :: "error + 'a \<Rightarrow> ('a \<Rightarrow> error + 'b) \<Rightarrow> error + 'b" where
  "bind_result r f = (case r of Inl e \<Rightarrow> Inl e | Inr x \<Rightarrow> f x)"

definition importance_df :: "string list \<Rightarrow> models \<Rightarrow> error + table" where
  "importance_df X_columns m =
     bind_result (pd_Series (clf_attribution (logreg m)) X_columns) (\<lambda>s1.
     bind_result (pd_Series (reg_coef (ridge_best m)) X_columns) (\<lambda>s2.
     bind_result (pd_Series (reg_coef (lasso_best m)) X_columns) (\<lambda>s3.
     bind_result (pd_Series (clf_attribution (dtree m)) X_columns) (\<lambda>s4.
     bind_result (pd_Series (clf_attribution (rf m)) X_columns) (\<lambda>s5.
     bind_result (pd_Series (clf_attribution (gbc m)) X_columns) (\<lambda>s6.
     pd_DataFrame
       [(''Logistic Regression'', s1), (''Ridge Regression'', s2), (''Lasso Regression'', s3),
        (''Decision Tree'', s4), (''Random Forest'', s5), (''Gradient Boosting'', s6)]))))))"

text \<open>
  A fitted scikit-learn model has one coefficient or importance per feature column it was
  fitted on.
\<close>

definition fitted_on :: "nat \<Rightarrow> models \<Rightarrow> bool" where
  "fitted_on F m \<longleftrightarrow>
     length (clf_attribution (logreg m)) = F \<and> length (reg_coef (ridge_best m)) = F
     \<and> length (reg_coef (lasso_best m)) = F \<and> length (clf_attribution (dtree m)) = F
     \<and> length (clf_attribution (rf m)) = F \<and> length (clf_attribution (gbc m)) = F"

subsection \<open>The aligned frame in closed form\<close>

text \<open>The value every added column is filled with: one zero per row.\<close>

definition zeros :: "frame \<Rightarrow> cell list" where
  "zeros df = replicate (nrows df) (CInt 0)"

text \<open>The column an aligned frame holds under label \<open>k\<close>.\<close>

definition aligned_column :: "frame \<Rightarrow> string \<Rightarrow> string \<times> cell list" where
  "aligned_column testingDF k =
     (k, case column testingDF k of Some c \<Rightarrow> c | None \<Rightarrow> zeros testingDF)"

section \<open>Properties of the alignment\<close>

lemma fill_missing_index: "index (fill_missing seq df) = index df"
  by (induction seq arbitrary: df) (simp_all add: df_setitem_def Let_def nrows_def)

lemma fill_missing_cols:
  "distinct seq \<Longrightarrow> set seq \<inter> set (columns df) = {} \<Longrightarrow>
   cols (fill_missing seq df) = cols df @ map (\<lambda>c. (c, zeros df)) seq"
proof (induction seq arbitrary: df)
  case Nil
  then show ?case by simp
next
  case (Cons col seq)
  let ?df = "df_setitem df col (CInt 0)"
  from Cons.prems have fresh: "col \<notin> set (columns df)" by simp
  then have c: "cols ?df = cols df @ [(col, zeros df)]"
    by (simp add: df_setitem_def Let_def zeros_def)
  have z: "zeros ?df = zeros df"
    by (simp add: zeros_def nrows_def df_setitem_def Let_def)
  from Cons.prems c have "set seq \<inter> set (columns ?df) = {}"
    by (auto simp: columns_def)
  with Cons.IH [of ?df] Cons.prems have
    "cols (fill_missing seq ?df) = cols ?df @ map (\<lambda>c. (c, zeros ?df)) seq"
    by simp
  with c z show ?case by simp
qed

lemma filter_label_distinct:
  "distinct (map fst cs) \<Longrightarrow> map_of cs k = Some v \<Longrightarrow> filter (\<lambda>c. fst c = k) cs = [(k, v)]"
proof (induction cs)
  case Nil
  then show ?case by simp
next
  case (Cons c cs)
  show ?case
  proof (cases "fst c = k")
    case True
    with Cons.prems have "k \<notin> fst ` set cs" and "snd c = v" by auto
    then have "filter (\<lambda>c. fst c = k) cs = []" by (auto simp: filter_empty_conv)
    with True \<open>snd c = v\<close> show ?thesis by (cases c) simp
  next
    case False
    with Cons show ?thesis by (cases c) auto
  qed
qed

lemma align_closed_form:
  assumes d: "distinct (columns testingDF)"
    and it: "iterates seq (missing_cols X_columns testingDF)"
  shows "align seq X_columns testingDF =
         Inr (testingDF\<lparr>cols := map (aligned_column testingDF) X_columns\<rparr>)"
proof -
  let ?f = "fill_missing seq testingDF"
  let ?cs = "cols testingDF @ map (\<lambda>c. (c, zeros testingDF)) seq"
  from it have ds: "distinct seq" and ss: "set seq = set X_columns - set (columns testingDF)"
    by (simp_all add: iterates_def missing_cols_def)
  then have disj: "set seq \<inter> set (columns testingDF) = {}" by auto
  from fill_missing_cols [OF ds disj] have cs: "cols ?f = ?cs" .
  have names: "map fst ?cs = columns testingDF @ seq"
    by (simp add: columns_def comp_def)
  from d ds disj have dist: "distinct (map fst ?cs)"
    unfolding names by auto
  have all_in: "filter (\<lambda>k. k \<notin> set (columns ?f)) X_columns = []"
    using ss by (auto simp: filter_empty_conv columns_def cs)
  have sel: "filter (\<lambda>c. fst c = k) ?cs = [aligned_column testingDF k]"
    if "k \<in> set X_columns" for k
  proof (cases "map_of (cols testingDF) k")
    case None
    then have "k \<notin> set (columns testingDF)"
      by (simp add: map_of_eq_None_iff columns_def)
    with that ss have "k \<in> set seq" by simp
    then have "map_of (map (\<lambda>c. (c, zeros testingDF)) seq) k = Some (zeros testingDF)"
      by (induction seq) auto
    with None have "map_of ?cs k = Some (zeros testingDF)"
      by (simp add: map_add_def)
    from filter_label_distinct [OF dist this] None show ?thesis
      by (simp add: aligned_column_def column_def)
  next
    case (Some v)
    then have "map_of ?cs k = Some v" by (simp add: map_add_def)
    from filter_label_distinct [OF dist this] Some show ?thesis
      by (simp add: aligned_column_def column_def)
  qed
  have "concat (map (\<lambda>k. filter (\<lambda>c. fst c = k) ?cs) X_columns)
        = map (aligned_column testingDF) X_columns"
    using sel by (induction X_columns) auto
  moreover have "?f\<lparr>cols := xs\<rparr> = testingDF\<lparr>cols := xs\<rparr>" for xs
    by (simp add: fill_missing_index)
  ultimately show ?thesis
    by (simp add: align_def df_getitem_def all_in cs)
qed

lemma map_of_aligned:
  "map_of (map (aligned_column df) ks) c = (if c \<in> set ks then Some (snd (aligned_column df c)) else None)"
  by (induction ks) (auto simp: aligned_column_def)

lemma columns_aligned: "columns (df\<lparr>cols := map (aligned_column t) ks\<rparr>) = ks"
  unfolding columns_def by (induction ks) (simp_all add: aligned_column_def)

lemma columns_setitem:
  "columns (df_setitem df col v)
   = (if col \<in> set (columns df) then columns df else columns df @ [col])"
proof -
  have "map fst (map (\<lambda>c. if fst c = col then (fst c, w) else c) cs) = map fst cs"
    for w :: "cell list" and cs
    by (induction cs) auto
  then show ?thesis
    unfolding df_setitem_def Let_def columns_def by simp
qed

lemma columns_fill_missing:
  "set (columns (fill_missing seq df)) = set (columns df) \<union> set seq"
proof (induction seq arbitrary: df)
  case Nil
  then show ?case by simp
next
  case (Cons col seq)
  have "set (columns (df_setitem df col (CInt 0))) = insert col (set (columns df))"
    by (auto simp: columns_setitem)
  with Cons.IH [of "df_setitem df col (CInt 0)"] show ?case by auto
qed

lemma df_getitem_columns:
  "df_getitem df key = Inr sel \<Longrightarrow> set (columns sel) \<subseteq> set key"
  by (auto simp: df_getitem_def columns_def split: list.splits)

lemma align_succeeds:
  assumes "iterates seq (missing_cols X_columns testingDF)"
  shows "\<exists>aligned. align seq X_columns testingDF = Inr aligned"
proof -
  from assms have "set X_columns \<subseteq> set (columns (fill_missing seq testingDF))"
    by (auto simp: iterates_def missing_cols_def columns_fill_missing)
  then have "filter (\<lambda>k. k \<notin> set (columns (fill_missing seq testingDF))) X_columns = []"
    by (auto simp: filter_empty_conv)
  then show ?thesis by (simp add: align_def df_getitem_def)
qed

lemma restore_cols: "distinct (map fst cs) \<Longrightarrow> map (\<lambda>k. (k, the (map_of cs k))) (map fst cs) = cs"
proof (induction cs)
  case Nil
  then show ?case by simp
next
  case (Cons c cs)
  then have "fst c \<notin> set (map fst cs)" by simp
  then have "map_of (c # cs) k = map_of cs k" if "k \<in> set (map fst cs)" for k
    using that by (cases c) auto
  then have "map (\<lambda>k. (k, the (map_of (c # cs) k))) (map fst cs)
             = map (\<lambda>k. (k, the (map_of cs k))) (map fst cs)"
    by (simp cong: map_cong)
  with Cons show ?case by (cases c) simp
qed

subsection \<open>Schema, row count and row order after alignment\<close>

text \<open>
  C1. Whatever the training schema and the test frame (pairwise different column labels,
  with or without rows), the alignment returns a frame whose column list is the training
  schema, label for label in the same order; its row index, hence its row count and row
  order, is that of the test frame, and every column the test frame already had under a
  label of the schema keeps its cells in place.
\<close>

theorem align_schema:
  assumes "distinct (columns testingDF)"
    and "iterates seq (missing_cols X_columns testingDF)"
  shows "\<exists>aligned. align seq X_columns testingDF = Inr aligned
           \<and> columns aligned = X_columns
           \<and> nrows aligned = nrows testingDF
           \<and> index aligned = index testingDF
           \<and> (\<forall>c. c \<in> set X_columns \<and> c \<in> set (columns testingDF)
                  \<longrightarrow> column aligned c = column testingDF c)"
proof -
  have "column (testingDF\<lparr>cols := map (aligned_column testingDF) X_columns\<rparr>) c
        = column testingDF c"
    if "c \<in> set X_columns" and "c \<in> set (columns testingDF)" for c
  proof -
    from that(2) have "map_of (cols testingDF) c \<noteq> None"
      by (simp add: map_of_eq_None_iff columns_def)
    then obtain v where "map_of (cols testingDF) c = Some v" by auto
    with that(1) show ?thesis
      by (simp add: column_def map_of_aligned aligned_column_def)
  qed
  then show ?thesis
    unfolding align_closed_form [OF assms]
    by (simp add: nrows_def columns_aligned)
qed

theorem align_schema_witness:
  "align [''A''] [''A'', ''B'']
     \<lparr>index = [0, 1], cols = [(''B'', [CInt 5, CInt 6]), (''C'', [CInt 7, CInt 8])]\<rparr>
   = Inr \<lparr>index = [0, 1], cols = [(''A'', [CInt 0, CInt 0]), (''B'', [CInt 5, CInt 6])]\<rparr>
   \<and> (\<exists>aligned. align [] [''A'', ''B''] \<lparr>index = [], cols = [(''A'', []), (''B'', [])]\<rparr> = Inr aligned
         \<and> columns aligned = [''A'', ''B''] \<and> nrows aligned = 0)"
proof -
  let ?t = "\<lparr>index = [0, 1], cols = [(''B'', [CInt 5, CInt 6]), (''C'', [CInt 7, CInt 8])]\<rparr>"
  let ?e = "\<lparr>index = [], cols = [(''A'', []), (''B'', [])]\<rparr> :: frame"
  have d: "distinct (columns ?t)" by (simp add: columns_def)
  have i: "iterates [''A''] (missing_cols [''A'', ''B''] ?t)"
    by (auto simp: iterates_def missing_cols_def columns_def)
  have d': "distinct (columns ?e)" by (simp add: columns_def)
  have i': "iterates [] (missing_cols [''A'', ''B''] ?e)"
    by (auto simp: iterates_def missing_cols_def columns_def)
  from align_schema [OF d i] obtain a where a: "align [''A''] [''A'', ''B''] ?t = Inr a"
    and "columns a = [''A'', ''B'']" and "index a = index ?t"
    and "column a ''B'' = column ?t ''B''"
    by (auto simp: columns_def)
  have "align [''A''] [''A'', ''B''] ?t
        = Inr \<lparr>index = [0, 1], cols = [(''A'', [CInt 0, CInt 0]), (''B'', [CInt 5, CInt 6])]\<rparr>"
    by (simp add: align_def df_getitem_def df_setitem_def columns_def nrows_def Let_def)
  moreover from align_schema [OF d' i'] have
    "\<exists>aligned. align [] [''A'', ''B''] ?e = Inr aligned
       \<and> columns aligned = [''A'', ''B''] \<and> nrows aligned = 0"
    by (auto simp: nrows_def)
  ultimately show ?thesis by simp
qed

subsection \<open>Missing columns are zero-filled, test-only columns are dropped\<close>

text \<open>
  C3. Each label of the training schema that the test frame lacks names, after alignment,
  a column holding the integer zero in every row; each label only the test frame has is
  gone. In particular, for the training schema [A, B, OneHot_X, OneHot_Y] and a test frame
  with columns [A, B, OneHot_X, OneHot_Z] the aligned columns are
  [A, B, OneHot_X, OneHot_Y], OneHot_Y is all zeros and OneHot_Z is absent.
\<close>

theorem align_fills_and_drops:
  assumes "distinct (columns testingDF)"
    and "iterates seq (missing_cols X_columns testingDF)"
  shows "\<exists>aligned. align seq X_columns testingDF = Inr aligned
           \<and> (\<forall>c. c \<in> set X_columns \<and> c \<notin> set (columns testingDF)
                  \<longrightarrow> column aligned c = Some (replicate (nrows aligned) (CInt 0)))
           \<and> (\<forall>c. c \<in> set (columns testingDF) \<and> c \<notin> set X_columns
                  \<longrightarrow> c \<notin> set (columns aligned))
           \<and> (X_columns = [''A'', ''B'', ''OneHot_X'', ''OneHot_Y'']
                \<and> columns testingDF = [''A'', ''B'', ''OneHot_X'', ''OneHot_Z'']
                \<longrightarrow> columns aligned = [''A'', ''B'', ''OneHot_X'', ''OneHot_Y'']
                  \<and> column aligned ''OneHot_Y'' = Some (replicate (nrows aligned) (CInt 0))
                  \<and> ''OneHot_Z'' \<notin> set (columns aligned))"
proof -
  define a where "a = testingDF\<lparr>cols := map (aligned_column testingDF) X_columns\<rparr>"
  have al: "align seq X_columns testingDF = Inr a"
    unfolding a_def by (rule align_closed_form [OF assms])
  have n: "nrows a = nrows testingDF" by (simp add: a_def nrows_def)
  have cs: "columns a = X_columns" unfolding a_def by (rule columns_aligned)
  have fill: "column a c = Some (replicate (nrows a) (CInt 0))"
    if "c \<in> set X_columns" and "c \<notin> set (columns testingDF)" for c
  proof -
    from that(2) have "map_of (cols testingDF) c = None"
      by (simp add: map_of_eq_None_iff columns_def)
    with that(1) show ?thesis
      unfolding n by (simp add: a_def column_def map_of_aligned aligned_column_def zeros_def)
  qed
  have gone: "c \<notin> set (columns a)" if "c \<notin> set X_columns" for c
    using that by (simp add: cs)
  have scen: "columns a = [''A'', ''B'', ''OneHot_X'', ''OneHot_Y'']
       \<and> column a ''OneHot_Y'' = Some (replicate (nrows a) (CInt 0))
       \<and> ''OneHot_Z'' \<notin> set (columns a)"
    if x: "X_columns = [''A'', ''B'', ''OneHot_X'', ''OneHot_Y'']"
      and t: "columns testingDF = [''A'', ''B'', ''OneHot_X'', ''OneHot_Z'']"
  proof -
    have "''OneHot_Y'' \<in> set X_columns" by (simp add: x)
    moreover have "''OneHot_Y'' \<notin> set (columns testingDF)" by (simp add: t)
    ultimately have "column a ''OneHot_Y'' = Some (replicate (nrows a) (CInt 0))"
      by (rule fill)
    moreover have "''OneHot_Z'' \<notin> set (columns a)" by (rule gone) (simp add: x)
    ultimately show ?thesis using cs x by simp
  qed
  from al fill gone scen show ?thesis by blast
qed

theorem align_fills_and_drops_witness:
  "align [''OneHot_Y''] [''A'', ''B'', ''OneHot_X'', ''OneHot_Y'']
     \<lparr>index = [0, 1],
      cols = [(''A'', [CInt 3, CInt 4]), (''B'', [CFloat 1, CFloat 2]),
              (''OneHot_X'', [CBool True, CBool False]),
              (''OneHot_Z'', [CBool False, CBool True])]\<rparr>
   = Inr \<lparr>index = [0, 1],
          cols = [(''A'', [CInt 3, CInt 4]), (''B'', [CFloat 1, CFloat 2]),
                  (''OneHot_X'', [CBool True, CBool False]),
                  (''OneHot_Y'', [CInt 0, CInt 0])]\<rparr>"
proof -
  let ?x = "[''A'', ''B'', ''OneHot_X'', ''OneHot_Y'']"
  let ?t = "\<lparr>index = [0, 1],
      cols = [(''A'', [CInt 3, CInt 4]), (''B'', [CFloat 1, CFloat 2]),
              (''OneHot_X'', [CBool True, CBool False]),
              (''OneHot_Z'', [CBool False, CBool True])]\<rparr>"
  have d: "distinct (columns ?t)" by (simp add: columns_def)
  have i: "iterates [''OneHot_Y''] (missing_cols ?x ?t)"
    by (auto simp: iterates_def missing_cols_def columns_def)
  from align_fills_and_drops [OF d i] obtain a
    where a: "align [''OneHot_Y''] ?x ?t = Inr a"
      and c: "columns a = ?x"
      and y: "column a ''OneHot_Y'' = Some (replicate (nrows a) (CInt 0))"
      and z: "''OneHot_Z'' \<notin> set (columns a)"
    by (auto simp: columns_def)
  show ?thesis
    by (simp add: align_def df_getitem_def df_setitem_def columns_def nrows_def Let_def)
qed

subsection \<open>Aligning an aligned frame\<close>

text \<open>
  C4. A test frame whose column list is already the training schema, label for label in
  order, comes back from the alignment as it went in: same index, same columns in the same
  order, same cells.
\<close>

theorem align_idempotent:
  assumes "distinct (columns testingDF)"
    and "columns testingDF = X_columns"
    and "iterates seq (missing_cols X_columns testingDF)"
  shows "align seq X_columns testingDF = Inr testingDF"
proof -
  from assms(1) have d: "distinct (map fst (cols testingDF))" by (simp add: columns_def)
  have "aligned_column testingDF k = (k, the (map_of (cols testingDF) k))"
    if "k \<in> set (map fst (cols testingDF))" for k
  proof -
    from that have "map_of (cols testingDF) k \<noteq> None" by (simp add: map_of_eq_None_iff)
    then show ?thesis by (auto simp: aligned_column_def column_def)
  qed
  then have "map (aligned_column testingDF) (map fst (cols testingDF))
             = map (\<lambda>k. (k, the (map_of (cols testingDF) k))) (map fst (cols testingDF))"
    by (simp cong: map_cong)
  also have "\<dots> = cols testingDF" by (rule restore_cols [OF d])
  finally have "map (aligned_column testingDF) (columns testingDF) = cols testingDF"
    unfolding columns_def .
  with assms(2) have "map (aligned_column testingDF) X_columns = cols testingDF"
    by simp
  then show ?thesis
    unfolding align_closed_form [OF assms(1,3)] by simp
qed

theorem align_idempotent_witness:
  "align [] [''A'', ''B'']
     \<lparr>index = [0, 1], cols = [(''A'', [CInt 0, CInt 0]), (''B'', [CInt 5, CInt 6])]\<rparr>
   = Inr \<lparr>index = [0, 1], cols = [(''A'', [CInt 0, CInt 0]), (''B'', [CInt 5, CInt 6])]\<rparr>"
proof -
  let ?t = "\<lparr>index = [0, 1], cols = [(''A'', [CInt 0, CInt 0]), (''B'', [CInt 5, CInt 6])]\<rparr>"
  have d: "distinct (columns ?t)" by (simp add: columns_def)
  have c: "columns ?t = [''A'', ''B'']" by (simp add: columns_def)
  have i: "iterates [] (missing_cols [''A'', ''B''] ?t)"
    by (auto simp: iterates_def missing_cols_def columns_def)
  show ?thesis by (rule align_idempotent [OF d c i])
qed

subsection \<open>Extracting the test features and labels\<close>

text \<open>
  C2. On well-formed inputs, aligning the test frame and then taking the test features
  (all columns but the label) and the test labels (the label column) should raise
  nothing. The notebook does otherwise: it aligns the test frame to the columns of \<open>X\<close>,
  from which the label was dropped, so the aligned frame never has a \<open>Churn\<close> column, and
  whenever the training frame has the label, \<^verbatim>\<open>testingDF.drop('Churn', axis=1)\<close>
  raises KeyError.
\<close>

theorem prepare_test_raises:
  assumes "training_features df_encoded = Inr X"
    and "iterates seq (missing_cols (columns X) testingDF)"
  shows "prepare_test seq (columns X) testingDF = Inl (KeyError [''Churn''])"
proof -
  from assms(1) have "''Churn'' \<notin> set (columns X)"
    by (auto simp: training_features_def df_drop_def columns_def split: if_splits)
  moreover from align_succeeds [OF assms(2)] obtain aligned
    where a: "align seq (columns X) testingDF = Inr aligned" ..
  then have "set (columns aligned) \<subseteq> set (columns X)"
    unfolding align_def by (rule df_getitem_columns)
  ultimately have "''Churn'' \<notin> set (columns aligned)" by auto
  then have "df_drop aligned ''Churn'' = Inl (KeyError [''Churn''])"
    by (simp add: df_drop_def)
  with a show ?thesis by (simp add: prepare_test_def)
qed

theorem prepare_test_raises_witness:
  "training_features
     \<lparr>index = [0, 1],
      cols = [(''Churn'', [CBool False, CBool True]), (''Total day calls'', [CInt 110, CInt 123])]\<rparr>
   = Inr \<lparr>index = [0, 1], cols = [(''Total day calls'', [CInt 110, CInt 123])]\<rparr>
   \<and> prepare_test [] [''Total day calls'']
       \<lparr>index = [0],
        cols = [(''Churn'', [CBool False]), (''Total day calls'', [CInt 97])]\<rparr>
     = Inl (KeyError [''Churn''])"
proof -
  let ?d = "\<lparr>index = [0, 1],
      cols = [(''Churn'', [CBool False, CBool True]), (''Total day calls'', [CInt 110, CInt 123])]\<rparr>"
  let ?X = "\<lparr>index = [0, 1], cols = [(''Total day calls'', [CInt 110, CInt 123])]\<rparr>"
  let ?t = "\<lparr>index = [0],
        cols = [(''Churn'', [CBool False]), (''Total day calls'', [CInt 97])]\<rparr>"
  have x: "training_features ?d = Inr ?X"
    by (simp add: training_features_def df_drop_def columns_def)
  have c: "columns ?X = [''Total day calls'']" by (simp add: columns_def)
  have i: "iterates [] (missing_cols (columns ?X) ?t)"
    by (auto simp: iterates_def missing_cols_def columns_def)
  from prepare_test_raises [OF x i] x show ?thesis unfolding c by simp
qed

section \<open>The alignment cell on the notebook's objects\<close>

lemma fill_missing_at_update:
  "a < length h \<Longrightarrow> fill_missing_at seq a h = h[a := fill_missing seq (h ! a)]"
  by (induction seq arbitrary: h) simp_all

lemma align_cell_align:
  assumes x: "var_X s < length (heap s)"
    and t: "var_testingDF s < length (heap s)"
    and it: "iterates seq (missing_cols (columns (heap s ! var_X s)) (heap s ! var_testingDF s))"
  shows "\<exists>aligned. align seq (columns (heap s ! var_X s)) (heap s ! var_testingDF s) = Inr aligned
           \<and> align_cell seq s
             = Inr (s\<lparr>heap := (heap s)[var_testingDF s := fill_missing seq (heap s ! var_testingDF s)]
                               @ [aligned],
                     var_testingDF := length (heap s)\<rparr>)"
proof -
  let ?h = "(heap s)[var_testingDF s := fill_missing seq (heap s ! var_testingDF s)]"
  from align_succeeds [OF it] obtain aligned
    where a: "align seq (columns (heap s ! var_X s)) (heap s ! var_testingDF s) = Inr aligned" ..
  have hx: "columns (?h ! var_X s) = columns (heap s ! var_X s)"
  proof (cases "var_X s = var_testingDF s")
    case True
    with it have "seq = []" by (simp add: iterates_def missing_cols_def)
    then show ?thesis by simp
  next
    case False
    then show ?thesis by simp
  qed
  have ht: "?h ! var_testingDF s = fill_missing seq (heap s ! var_testingDF s)"
    using t by simp
  show ?thesis
    using a by (simp add: align_cell_def fill_missing_at_update [OF t] hx ht align_def)
qed

text \<open>
  C9. The alignment cell writes to the test frame only. Whatever objects the variables
  refer to, after the cell \<open>X\<close> refers to the same object and that object is the frame it
  was before, columns, order, rows and cells; so is every object other than the one
  \<open>testingDF\<close> referred to.
\<close>

theorem align_cell_frame:
  assumes "var_X s < length (heap s)"
    and "var_testingDF s < length (heap s)"
    and "iterates seq (missing_cols (columns (heap s ! var_X s)) (heap s ! var_testingDF s))"
  shows "\<exists>s'. align_cell seq s = Inr s'
           \<and> var_X s' = var_X s
           \<and> heap s' ! var_X s' = heap s ! var_X s
           \<and> (\<forall>a. a < length (heap s) \<and> a \<noteq> var_testingDF s \<longrightarrow> heap s' ! a = heap s ! a)"
proof -
  let ?h = "(heap s)[var_testingDF s := fill_missing seq (heap s ! var_testingDF s)]"
  from align_cell_align [OF assms] obtain aligned
    where c: "align_cell seq s = Inr (s\<lparr>heap := ?h @ [aligned], var_testingDF := length (heap s)\<rparr>)"
    by blast
  have other: "(?h @ [aligned]) ! a = heap s ! a"
    if "a < length (heap s)" "a \<noteq> var_testingDF s" for a
    using that by (simp add: nth_append)
  have "(?h @ [aligned]) ! var_X s = heap s ! var_X s"
  proof (cases "var_X s = var_testingDF s")
    case True
    with assms(3) have "seq = []" by (simp add: iterates_def missing_cols_def)
    with assms(1) show ?thesis by (simp add: nth_append)
  next
    case False
    with assms(1) show ?thesis by (simp add: other)
  qed
  with c other show ?thesis by simp
qed

theorem align_cell_frame_witness:
  "align_cell [''A'']
     \<lparr>heap = [\<lparr>index = [0, 1], cols = [(''A'', [CInt 1, CInt 2]), (''B'', [CInt 3, CInt 4])]\<rparr>,
              \<lparr>index = [0], cols = [(''B'', [CInt 9])]\<rparr>],
      var_X = 0, var_testingDF = 1\<rparr>
   = Inr \<lparr>heap = [\<lparr>index = [0, 1], cols = [(''A'', [CInt 1, CInt 2]), (''B'', [CInt 3, CInt 4])]\<rparr>,
                  \<lparr>index = [0], cols = [(''B'', [CInt 9]), (''A'', [CInt 0])]\<rparr>,
                  \<lparr>index = [0], cols = [(''A'', [CInt 0]), (''B'', [CInt 9])]\<rparr>],
          var_X = 0, var_testingDF = 2\<rparr>"
proof -
  let ?X = "\<lparr>index = [0, 1], cols = [(''A'', [CInt 1, CInt 2]), (''B'', [CInt 3, CInt 4])]\<rparr>"
  let ?t = "\<lparr>index = [0], cols = [(''B'', [CInt 9])]\<rparr>"
  let ?s = "\<lparr>heap = [?X, ?t], var_X = 0, var_testingDF = 1\<rparr>"
  have x: "var_X ?s < length (heap ?s)" and t: "var_testingDF ?s < length (heap ?s)"
    by simp_all
  have i: "iterates [''A''] (missing_cols (columns (heap ?s ! var_X ?s)) (heap ?s ! var_testingDF ?s))"
    by (auto simp: iterates_def missing_cols_def columns_def)
  from align_cell_frame [OF x t i] obtain s'
    where "align_cell [''A''] ?s = Inr s'" and "heap s' ! var_X s' = ?X"
    by auto
  show ?thesis
    by (simp add: align_cell_def df_getitem_def df_setitem_def columns_def nrows_def Let_def)
qed

section \<open>Properties of the scoring\<close>

text \<open>
  C5. Thresholding keeps one label per score; a score at or above one half becomes 1, a
  score below one half becomes 0, and one half itself becomes 1.
\<close>

theorem threshold_law:
  "length (threshold scores) = length scores
   \<and> (\<forall>i. i < length scores \<and> score_ge (scores ! i) (1/2) \<longrightarrow> threshold scores ! i = 1)
   \<and> (\<forall>i. i < length scores \<and> score_lt (scores ! i) (1/2) \<longrightarrow> threshold scores ! i = 0)
   \<and> threshold [Finite (1/2)] = [1]"
proof -
  have "\<not> score_ge s x" if "score_lt s x" for s x
    using that by (cases s) auto
  then show ?thesis by (auto simp: threshold_def bool_astype_int_def)
qed

theorem threshold_law_witness:
  "threshold [Finite (7/10), Finite (1/2), Finite (49/100), NegInf] = [1, 1, 0, 0]"
proof -
  let ?s = "[Finite (7/10), Finite (1/2), Finite (49/100), NegInf]"
  from threshold_law [of ?s]
  have "\<forall>i. i < length ?s \<and> score_ge (?s ! i) (1/2) \<longrightarrow> threshold ?s ! i = 1"
    by blast
  then have "threshold ?s ! 1 = 1" by simp
  then show ?thesis by (simp add: threshold_def bool_astype_int_def)
qed

text \<open>
  C6. For the true labels [1,0,1,1,0] and the predicted labels [1,0,0,1,0] the report
  gives, for class 1, precision 1, recall 2/3 and F1 0.8, and the overall accuracy 0.8.
\<close>

theorem report_scenario:
  "row_precision (per_class (classification_report [1,0,1,1,0] [1,0,0,1,0]) 1) = 1
   \<and> row_recall (per_class (classification_report [1,0,1,1,0] [1,0,0,1,0]) 1) = 2/3
   \<and> row_f1 (per_class (classification_report [1,0,1,1,0] [1,0,0,1,0]) 1) = 8/10
   \<and> overall_accuracy (classification_report [1,0,1,1,0] [1,0,0,1,0]) = Some (8/10)"
  by (simp add: classification_report_def precision_def recall_def f1_score_def accuracy_def
      ratio_def true_positives_def false_positives_def false_negatives_def Let_def)

text \<open>
  C7. For a class with no instance among the true labels the report is still computed,
  and its row for that class has support 0, precision 0 and recall 0 (and F1 0): the
  zero denominators give zero.
\<close>

theorem report_absent_class:
  assumes "c \<notin> set y_true"
  shows "row_support (per_class (classification_report y_true y_pred) c) = 0
         \<and> row_precision (per_class (classification_report y_true y_pred) c) = 0
         \<and> row_recall (per_class (classification_report y_true y_pred) c) = 0
         \<and> row_f1 (per_class (classification_report y_true y_pred) c) = 0"
proof -
  have z: "\<forall>x \<in> set (zip y_true y_pred). fst x \<noteq> c"
    using assms by (auto dest: set_zip_leftD)
  have tp: "true_positives c y_true y_pred = 0"
    using z by (auto simp: true_positives_def filter_empty_conv)
  have fn: "false_negatives c y_true y_pred = 0"
    using z by (auto simp: false_negatives_def filter_empty_conv)
  have s: "support c y_true = 0"
    using assms by (auto simp: support_def filter_empty_conv)
  show ?thesis
    by (simp add: classification_report_def s precision_def recall_def f1_score_def tp fn
        ratio_def)
qed

theorem report_absent_class_witness:
  "row_support (per_class (classification_report [0,0,0] [0,1,0]) 1) = 0
   \<and> row_precision (per_class (classification_report [0,0,0] [0,1,0]) 1) = 0
   \<and> row_recall (per_class (classification_report [0,0,0] [0,1,0]) 1) = 0
   \<and> false_positives 1 [0,0,0] [0,1,0] = 1
   \<and> true_positives 1 [0,0,0] [0,1,0] + false_negatives 1 [0,0,0] [0,1,0] = 0"
proof -
  have "(1::int) \<notin> set [0,0,0]" by simp
  from report_absent_class [OF this, of "[0,1,0]"] show ?thesis
    by (simp add: false_positives_def true_positives_def false_negatives_def)
qed

section \<open>Shape of the importance table\<close>

lemma reindex_same: "reindex \<lparr>s_index = idx, s_values = vs\<rparr> idx = Inr (map Some vs)"
  by (simp add: reindex_def)

text \<open>
  C8. With six models fitted on F feature columns, the importance table is built, has
  the F feature names as its rows and the six model names as its columns, and each
  column holds F cells none of which is missing.
\<close>

theorem importance_table_shape:
  assumes "fitted_on (length X_columns) m"
  shows "\<exists>t. importance_df X_columns m = Inr t
           \<and> t_index t = X_columns
           \<and> map fst (t_cols t)
             = [''Logistic Regression'', ''Ridge Regression'', ''Lasso Regression'',
                ''Decision Tree'', ''Random Forest'', ''Gradient Boosting'']
           \<and> length (t_cols t) = 6
           \<and> list_all (\<lambda>c. length (snd c) = length X_columns \<and> None \<notin> set (snd c)) (t_cols t)"
  using assms
  by (auto simp: importance_df_def fitted_on_def pd_Series_def bind_result_def pd_DataFrame_def
      union_indexes_def reindex_same Let_def)

theorem importance_table_shape_witness:
  "importance_df [''Total day calls'', ''State_KS'']
     \<lparr>logreg = \<lparr>clf_attribution = [1/2, -1], clf_predict = (\<lambda>X. [])\<rparr>,
      ridge_best = \<lparr>reg_coef = [1/4, 0], reg_predict = (\<lambda>X. [])\<rparr>,
      lasso_best = \<lparr>reg_coef = [0, 0], reg_predict = (\<lambda>X. [])\<rparr>,
      dtree = \<lparr>clf_attribution = [1, 0], clf_predict = (\<lambda>X. [])\<rparr>,
      rf = \<lparr>clf_attribution = [3/4, 1/4], clf_predict = (\<lambda>X. [])\<rparr>,
      gbc = \<lparr>clf_attribution = [1/2, 1/2], clf_predict = (\<lambda>X. [])\<rparr>\<rparr>
   = Inr \<lparr>t_index = [''Total day calls'', ''State_KS''],
          t_cols = [(''Logistic Regression'', [Some (1/2), Some (-1)]),
                    (''Ridge Regression'', [Some (1/4), Some 0]),
                    (''Lasso Regression'', [Some 0, Some 0]),
                    (''Decision Tree'', [Some 1, Some 0]),
                    (''Random Forest'', [Some (3/4), Some (1/4)]),
                    (''Gradient Boosting'', [Some (1/2), Some (1/2)])]\<rparr>"
proof -
  let ?m = "\<lparr>logreg = \<lparr>clf_attribution = [1/2, -1], clf_predict = (\<lambda>X. [])\<rparr>,
      ridge_best = \<lparr>reg_coef = [1/4, 0], reg_predict = (\<lambda>X. [])\<rparr>,
      lasso_best = \<lparr>reg_coef = [0, 0], reg_predict = (\<lambda>X. [])\<rparr>,
      dtree = \<lparr>clf_attribution = [1, 0], clf_predict = (\<lambda>X. [])\<rparr>,
      rf = \<lparr>clf_attribution = [3/4, 1/4], clf_predict = (\<lambda>X. [])\<rparr>,
      gbc = \<lparr>clf_attribution = [1/2, 1/2], clf_predict = (\<lambda>X. [])\<rparr>\<rparr>"
  have f: "fitted_on (length [''Total day calls'', ''State_KS'']) ?m"
    by (simp add: fitted_on_def)
  from importance_table_shape [OF f] obtain t
    where "importance_df [''Total day calls'', ''State_KS''] ?m = Inr t"
      and "t_index t = [''Total day calls'', ''State_KS'']" and "length (t_cols t) = 6"
    by blast
  show ?thesis
    by (simp add: importance_df_def pd_Series_def bind_result_def pd_DataFrame_def
        union_indexes_def reindex_same Let_def)
qed

section \<open>Iteration order of the missing columns\<close>

text \<open>
  The order in which the set \<open>missing_cols\<close> is iterated is not fixed by the language.
  The frame the loop leaves lists the added columns in that order; the selection that
  follows does not, so the aligned frame and the outcome of the test preparation are the
  same for every order.
\<close>

lemma filter_added:
  "distinct seq \<Longrightarrow>
   filter (\<lambda>c. fst c = k) (map (\<lambda>c. (c, z)) seq) = (if k \<in> set seq then [(k, z)] else [])"
  by (induction seq) auto

lemma align_by_set:
  assumes "iterates seq (missing_cols X_columns testingDF)"
  shows "align seq X_columns testingDF =
         Inr (testingDF\<lparr>cols := concat (map (\<lambda>k. filter (\<lambda>c. fst c = k) (cols testingDF)
                   @ (if k \<in> missing_cols X_columns testingDF then [(k, zeros testingDF)] else []))
                 X_columns)\<rparr>)"
proof -
  let ?f = "fill_missing seq testingDF"
  from assms have ds: "distinct seq"
    and ss: "set seq = missing_cols X_columns testingDF"
    by (simp_all add: iterates_def)
  then have "set seq \<inter> set (columns testingDF) = {}"
    by (auto simp: missing_cols_def)
  from fill_missing_cols [OF ds this]
  have cs: "cols ?f = cols testingDF @ map (\<lambda>c. (c, zeros testingDF)) seq" .
  have "set X_columns \<subseteq> set (columns ?f)"
    using ss by (auto simp: columns_fill_missing missing_cols_def)
  then have ok: "filter (\<lambda>k. k \<notin> set (columns ?f)) X_columns = []"
    by (auto simp: filter_empty_conv)
  have r: "?f\<lparr>cols := xs\<rparr> = testingDF\<lparr>cols := xs\<rparr>" for xs
    by (simp add: fill_missing_index)
  show ?thesis
    by (simp add: align_def df_getitem_def ok r cs filter_added [OF ds] ss)
qed

lemma align_order_independent:
  assumes "iterates seq1 (missing_cols X_columns testingDF)"
    and "iterates seq2 (missing_cols X_columns testingDF)"
  shows "align seq1 X_columns testingDF = align seq2 X_columns testingDF"
  unfolding align_by_set [OF assms(1)] align_by_set [OF assms(2)] ..

lemma prepare_test_order_independent:
  assumes "iterates seq1 (missing_cols X_columns testingDF)"
    and "iterates seq2 (missing_cols X_columns testingDF)"
  shows "prepare_test seq1 X_columns testingDF = prepare_test seq2 X_columns testingDF"
  by (simp add: prepare_test_def align_order_independent [OF assms])

end
